theory Spec2Isabelle
  imports Main "HOL-Library.AList" "HOL-Library.Sublist"
begin

section \<open>The reindexing command of \<open>src/script.py\<close>\<close>

text \<open>
  The script is a command-line entry point. Its group callback \<open>graph_cli_group\<close>
  resolves the configuration, its command \<open>reindex\<close> checks which derived files
  exist and launches external generators. Everything the command does is an effect on
  the operating system, so the model is a program over an explicit world that returns
  the exception or the value, the world it leaves behind, and the list of the
  operations it performed, in order.
\<close>

subsection \<open>Configuration values\<close>

text \<open>
  The configuration is a Python \<open>dict\<close> from strings to YAML values. A Python dict
  keeps insertion order and assignment to an existing key replaces the value in place,
  which is what \<open>AList.update\<close> does on an association list; \<open>k in conf\<close> is
  \<open>map_of conf k \<noteq> None\<close>.
\<close>

datatype cval =
    Str string
  | Int int
  | Bool bool
  | Null
  | List "cval list"
  | Dict "(string \<times> cval) list"

type_synonym conf = "(string \<times> cval) list"

type_synonym path = string

subsection \<open>Exceptions and observable operations\<close>

datatype error =
    ValueError string
  | OSError path
  | CalledProcessError string "string list"

text \<open>
  One event per operation the script performs: \<open>os.path.exists\<close> with its answer,
  \<open>logging.info\<close>, \<open>open\<close> and the text that \<open>f.read()\<close> returned,
  \<open>os.unlink\<close>, the launch of an external executable
  (\<open>Rust(bin, *args, conf=conf).run()\<close>), and the exception that ends the run.
\<close>

datatype event =
    Exists path bool
  | LogInfo string
  | Open path
  | Read path string
  | Unlink path
  | Invoke string "string list" conf
  | Raised error

subsection \<open>The operating system as a parameter\<close>

text \<open>
  \<open>os.path.exists\<close>, \<open>os.unlink\<close>, \<open>open\<close>/\<open>read\<close> and the class \<open>Rust\<close> of
  \<open>swh.graph.shell\<close> are library code outside the repository. They are taken as
  a record of operations over a type of worlds \<open>'w\<close>, so every theorem below holds
  whatever they do. A generator is a black box: it returns normally or raises, and
  in both cases it may leave any world behind.
\<close>

record 'w os =
  path_exists :: "'w \<Rightarrow> path \<Rightarrow> bool"
  unlink :: "path \<Rightarrow> 'w \<Rightarrow> error + 'w"
  read_text :: "'w \<Rightarrow> path \<Rightarrow> error + string"
  rust_run :: "string \<Rightarrow> string list \<Rightarrow> conf \<Rightarrow> 'w \<Rightarrow> (error + unit) \<times> 'w"

type_synonym ('w, 'a) prog = "'w \<Rightarrow> (error + 'a) \<times> 'w \<times> event list"

definition result_of :: "(error + 'a) \<times> 'w \<times> event list \<Rightarrow> error + 'a" where
  "result_of out = fst out"

definition world_of :: "(error + 'a) \<times> 'w \<times> event list \<Rightarrow> 'w" where
  "world_of out = fst (snd out)"

definition events_of :: "(error + 'a) \<times> 'w \<times> event list \<Rightarrow> event list" where
  "events_of out = snd (snd out)"

definition ret :: "'a \<Rightarrow> ('w, 'a) prog" where
  "ret x w = (Inr x, w, [])"

definition raise :: "error \<Rightarrow> ('w, 'a) prog" where
  "raise e w = (Inl e, w, [Raised e])"

text \<open>
  Sequencing of two statements: an exception of the first ends the run, otherwise the
  second runs in the world the first left, and its events follow.
\<close>

definition bind :: "('w, 'a) prog \<Rightarrow> ('a \<Rightarrow> ('w, 'b) prog) \<Rightarrow> ('w, 'b) prog" where
  "bind m f w =
     (case m w of
        (Inl e, w1, t1) \<Rightarrow> (Inl e, w1, t1)
      | (Inr x, w1, t1) \<Rightarrow> (case f x w1 of (r, w2, t2) \<Rightarrow> (r, w2, t1 @ t2)))"

definition os_path_exists :: "'w os \<Rightarrow> path \<Rightarrow> ('w, bool) prog" where
  "os_path_exists os p w = (Inr (path_exists os w p), w, [Exists p (path_exists os w p)])"

definition logging_info :: "string \<Rightarrow> ('w, unit) prog" where
  "logging_info msg w = (Inr (), w, [LogInfo msg])"

definition open_read :: "'w os \<Rightarrow> path \<Rightarrow> ('w, string) prog" where
  "open_read os p w =
     (case read_text os w p of
        Inl e \<Rightarrow> (Inl e, w, [Open p, Raised e])
      | Inr c \<Rightarrow> (Inr c, w, [Open p, Read p c]))"

definition os_unlink :: "'w os \<Rightarrow> path \<Rightarrow> ('w, unit) prog" where
  "os_unlink os p w =
     (case unlink os p w of
        Inl e \<Rightarrow> (Inl e, w, [Unlink p, Raised e])
      | Inr w' \<Rightarrow> (Inr (), w', [Unlink p]))"

definition Rust_run :: "'w os \<Rightarrow> string \<Rightarrow> string list \<Rightarrow> conf \<Rightarrow> ('w, unit) prog" where
  "Rust_run os bin args c w =
     (case rust_run os bin args c w of
        (Inl e, w') \<Rightarrow> (Inl e, w', [Invoke bin args c, Raised e])
      | (Inr u, w') \<Rightarrow> (Inr (), w', [Invoke bin args c]))"

subsection \<open>\<open>str.strip()\<close>\<close>

text \<open>
  Python's \<open>strip\<close> without argument removes the leading and trailing characters for
  which \<open>str.isspace\<close> holds. A \<open>char\<close> here is one code point below 256; the
  whitespace code points in that range are 9 to 13, 28 to 32, 133 and 160.
\<close>

definition isspace :: "char \<Rightarrow> bool" where
  "isspace c = (of_char c \<in> set [9, 10, 11, 12, 13, 28, 29, 30, 31, 32, 133, 160 :: nat])"

definition strip :: "string \<Rightarrow> string" where
  "strip s = rev (dropWhile isspace (rev (dropWhile isspace s)))"

subsection \<open>\<open>graph_cli_group\<close>\<close>

text \<open>
  \<open>config.read(config_file, DEFAULT_CONFIG)\<close> is \<open>swh.core\<close> code; its result is the
  argument \<open>conf\<close>. The callback raises \<open>ValueError\<close> when the result has no
  \<open>graph\<close> key, and otherwise stores the dict in the context and writes the
  \<open>--profile\<close> option into that same dict, so the command sees the update.
\<close>

definition graph_cli_group :: "string option \<Rightarrow> conf \<Rightarrow> string option \<Rightarrow> ('w, conf) prog" where
  \<open>graph_cli_group config_file conf profile =
     (if map_of conf ''graph'' = None then
        raise (ValueError (''no "graph" stanza found in configuration file '' @
                 (case config_file of None \<Rightarrow> ''None'' | Some f \<Rightarrow> f)))
      else
        ret (case profile of None \<Rightarrow> conf | Some p \<Rightarrow> AList.update ''profile'' (Str p) conf))\<close>

subsection \<open>\<open>reindex\<close>\<close>

text \<open>Lines 89 and 90: the profile defaults to \<open>release\<close>.\<close>

definition default_profile :: "conf \<Rightarrow> conf" where
  "default_profile conf =
     (if map_of conf ''profile'' = None then AList.update ''profile'' (Str ''release'') conf
      else conf)"

text \<open>
  A guard \<open>flag or not os.path.exists(p)\<close>: Python's \<open>or\<close> does not evaluate its
  second operand when the first is true, so the file is only looked at when the flag
  is off.
\<close>

definition flag_or_missing :: "'w os \<Rightarrow> bool \<Rightarrow> path \<Rightarrow> ('w, bool) prog" where
  "flag_or_missing os flag p =
     (if flag then ret True else bind (os_path_exists os p) (\<lambda>b. ret (\<not> b)))"

text \<open>Lines 92 to 97, the forward Elias-Fano index.\<close>

definition step_a :: "'w os \<Rightarrow> conf \<Rightarrow> bool \<Rightarrow> string \<Rightarrow> ('w, unit) prog" where
  "step_a os conf ef graph =
     bind (flag_or_missing os ef (graph @ ''.ef'')) (\<lambda>rebuild.
       if rebuild then
         bind (logging_info ''Recreating Elias-Fano indexes on adjacency lists'') (\<lambda>_.
           Rust_run os ''swh-graph-index'' [''ef'', graph] conf)
       else ret ())"

text \<open>Lines 99 to 114, the Elias-Fano index on arc labels.\<close>

definition step_b :: "'w os \<Rightarrow> conf \<Rightarrow> bool \<Rightarrow> string \<Rightarrow> ('w, unit) prog" where
  "step_b os conf ef graph =
     bind (flag_or_missing os ef (graph @ ''-labelled.ef'')) (\<lambda>rebuild.
       if rebuild then
         bind (open_read os (graph @ ''.nodes.count.txt'')) (\<lambda>text.
           bind (logging_info ''Recreating Elias-Fano indexes on arc labels'') (\<lambda>_.
             Rust_run os ''swh-graph-index''
               [''labels-ef'', graph @ ''-labelled'', strip text] conf))
       else ret ())"

text \<open>Lines 117 to 122, the node-type map.\<close>

definition step_c :: "'w os \<Rightarrow> conf \<Rightarrow> bool \<Rightarrow> string \<Rightarrow> ('w, unit) prog" where
  "step_c os conf force graph =
     bind (flag_or_missing os force (graph @ ''.node2type.bin'')) (\<lambda>rebuild.
       if rebuild then
         bind (logging_info ''Creating node2type.bin'') (\<lambda>_.
           bind (os_path_exists os (graph @ ''.node2type.bin'')) (\<lambda>present.
             bind (if present then os_unlink os (graph @ ''.node2type.bin'') else ret ()) (\<lambda>_.
               Rust_run os ''swh-graph-node2type'' [graph] conf)))
       else ret ())"

definition reindex :: "'w os \<Rightarrow> conf \<Rightarrow> bool \<Rightarrow> bool \<Rightarrow> string \<Rightarrow> ('w, unit) prog" where
  "reindex os conf0 force ef0 graph =
     (let ef = ef0 \<or> force;
          conf = default_profile conf0
      in bind (step_a os conf ef graph) (\<lambda>_.
           bind (step_b os conf ef graph) (\<lambda>_.
             step_c os conf force graph)))"

text \<open>
  The command line \<open>graph [-C file] [--profile p] patate [--force] [--ef] GRAPH\<close>:
  click runs the group callback first and the command only when the callback returned.
\<close>

definition main :: "'w os \<Rightarrow> string option \<Rightarrow> conf \<Rightarrow> string option \<Rightarrow>
    bool \<Rightarrow> bool \<Rightarrow> string \<Rightarrow> ('w, unit) prog" where
  "main os config_file conf_read profile force ef graph =
     bind (graph_cli_group config_file conf_read profile) (\<lambda>conf.
       reindex os conf force ef graph)"


subsection \<open>Reading a run\<close>

text \<open>The generator launches of a run, in order, without the configuration.\<close>

fun invocations :: "event list \<Rightarrow> (string \<times> string list) list" where
  "invocations [] = []"
| "invocations (Invoke b a c # es) = (b, a) # invocations es"
| "invocations (e # es) = invocations es"

text \<open>The exceptions of a run, in order.\<close>

fun raised :: "event list \<Rightarrow> error list" where
  "raised [] = []"
| "raised (Raised e # es) = e # raised es"
| "raised (ev # es) = raised es"

subsection \<open>A small file system to run the command on\<close>

text \<open>
  One instance of the operating system, for evaluating the command on concrete inputs:
  a file system is an association list from paths to contents, a missing file makes
  \<open>open\<close> and \<open>unlink\<close> raise, and a generator creates the file that section 6 of
  the specification says it creates, unless its command line is listed in \<open>broken\<close>,
  in which case it exits abnormally.
\<close>

type_synonym fs = "(path \<times> string) list"

definition sim_rust_run ::
    "(string \<times> string list) list \<Rightarrow> string \<Rightarrow> string list \<Rightarrow> conf \<Rightarrow> fs \<Rightarrow> (error + unit) \<times> fs" where
  "sim_rust_run broken bin args c files =
     (if (bin, args) \<in> set broken then (Inl (CalledProcessError bin args), files)
      else if bin = ''swh-graph-index'' \<and> length args = 2 \<and> args ! 0 = ''ef'' then
        (Inr (), AList.update (args ! 1 @ ''.ef'') ''forward index'' files)
      else if bin = ''swh-graph-index'' \<and> length args = 3 \<and> args ! 0 = ''labels-ef'' then
        (Inr (), AList.update (args ! 1 @ ''.ef'') (''label index for '' @ args ! 2) files)
      else if bin = ''swh-graph-node2type'' \<and> length args = 1 then
        (Inr (), AList.update (args ! 0 @ ''.node2type.bin'') ''node types'' files)
      else (Inl (CalledProcessError bin args), files))"

definition sim_os :: "(string \<times> string list) list \<Rightarrow> fs os" where
  "sim_os broken =
     \<lparr> path_exists = (\<lambda>files p. map_of files p \<noteq> None),
       unlink = (\<lambda>p files. if map_of files p = None then Inl (OSError p)
                             else Inr (AList.delete p files)),
       read_text = (\<lambda>files p. case map_of files p of None \<Rightarrow> Inl (OSError p) | Some c \<Rightarrow> Inr c),
       rust_run = sim_rust_run broken \<rparr>"

section \<open>Facts about sequencing and the three steps\<close>

lemmas prim_defs = ret_def raise_def os_path_exists_def logging_info_def
  open_read_def os_unlink_def Rust_run_def

lemmas out_defs = result_of_def world_of_def events_of_def

lemma events_of_bind:
  "events_of (bind m f w) =
     events_of (m w) @
       (case result_of (m w) of Inl e \<Rightarrow> [] | Inr x \<Rightarrow> events_of (f x (world_of (m w))))"
  by (simp add: bind_def out_defs split: prod.splits sum.splits)

lemma result_of_bind:
  "result_of (bind m f w) =
     (case result_of (m w) of Inl e \<Rightarrow> Inl e | Inr x \<Rightarrow> result_of (f x (world_of (m w))))"
  by (simp add: bind_def out_defs split: prod.splits sum.splits)

lemma world_of_bind:
  "world_of (bind m f w) =
     (case result_of (m w) of Inl e \<Rightarrow> world_of (m w) | Inr x \<Rightarrow> world_of (f x (world_of (m w))))"
  by (simp add: bind_def out_defs split: prod.splits sum.splits)

text \<open>Each step, written out: what it returns, the world it leaves and its events.\<close>

lemma step_a_eq:
  "step_a os conf ef graph w =
     (if ef \<or> \<not> path_exists os w (graph @ ''.ef'') then
        (case rust_run os ''swh-graph-index'' [''ef'', graph] conf w of
           (Inl e, w') \<Rightarrow>
             (Inl e, w', (if ef then [] else [Exists (graph @ ''.ef'') False]) @
                [LogInfo ''Recreating Elias-Fano indexes on adjacency lists'',
                 Invoke ''swh-graph-index'' [''ef'', graph] conf, Raised e])
         | (Inr u, w') \<Rightarrow>
             (Inr (), w', (if ef then [] else [Exists (graph @ ''.ef'') False]) @
                [LogInfo ''Recreating Elias-Fano indexes on adjacency lists'',
                 Invoke ''swh-graph-index'' [''ef'', graph] conf]))
      else (Inr (), w, [Exists (graph @ ''.ef'') True]))"
  by (simp add: step_a_def flag_or_missing_def bind_def prim_defs split: sum.splits prod.splits)

lemma step_b_eq:
  "step_b os conf ef graph w =
     (if ef \<or> \<not> path_exists os w (graph @ ''-labelled.ef'') then
        (case read_text os w (graph @ ''.nodes.count.txt'') of
           Inl e \<Rightarrow>
             (Inl e, w, (if ef then [] else [Exists (graph @ ''-labelled.ef'') False]) @
                [Open (graph @ ''.nodes.count.txt''), Raised e])
         | Inr text \<Rightarrow>
             (case rust_run os ''swh-graph-index''
                     [''labels-ef'', graph @ ''-labelled'', strip text] conf w of
                (Inl e, w') \<Rightarrow>
                  (Inl e, w', (if ef then [] else [Exists (graph @ ''-labelled.ef'') False]) @
                     [Open (graph @ ''.nodes.count.txt''), Read (graph @ ''.nodes.count.txt'') text,
                      LogInfo ''Recreating Elias-Fano indexes on arc labels'',
                      Invoke ''swh-graph-index'' [''labels-ef'', graph @ ''-labelled'', strip text] conf,
                      Raised e])
              | (Inr u, w') \<Rightarrow>
                  (Inr (), w', (if ef then [] else [Exists (graph @ ''-labelled.ef'') False]) @
                     [Open (graph @ ''.nodes.count.txt''), Read (graph @ ''.nodes.count.txt'') text,
                      LogInfo ''Recreating Elias-Fano indexes on arc labels'',
                      Invoke ''swh-graph-index'' [''labels-ef'', graph @ ''-labelled'', strip text] conf])))
      else (Inr (), w, [Exists (graph @ ''-labelled.ef'') True]))"
  by (simp add: step_b_def flag_or_missing_def bind_def prim_defs split: sum.splits prod.splits)

lemma step_c_eq:
  "step_c os conf force graph w =
     (if force \<or> \<not> path_exists os w (graph @ ''.node2type.bin'') then
        (if path_exists os w (graph @ ''.node2type.bin'') then
           (case unlink os (graph @ ''.node2type.bin'') w of
              Inl e \<Rightarrow>
                (Inl e, w,
                   [LogInfo ''Creating node2type.bin'', Exists (graph @ ''.node2type.bin'') True,
                    Unlink (graph @ ''.node2type.bin''), Raised e])
            | Inr w1 \<Rightarrow>
                (case rust_run os ''swh-graph-node2type'' [graph] conf w1 of
                   (Inl e, w') \<Rightarrow>
                     (Inl e, w',
                        [LogInfo ''Creating node2type.bin'', Exists (graph @ ''.node2type.bin'') True,
                         Unlink (graph @ ''.node2type.bin''),
                         Invoke ''swh-graph-node2type'' [graph] conf, Raised e])
                 | (Inr u, w') \<Rightarrow>
                     (Inr (), w',
                        [LogInfo ''Creating node2type.bin'', Exists (graph @ ''.node2type.bin'') True,
                         Unlink (graph @ ''.node2type.bin''),
                         Invoke ''swh-graph-node2type'' [graph] conf])))
         else
           (case rust_run os ''swh-graph-node2type'' [graph] conf w of
              (Inl e, w') \<Rightarrow>
                (Inl e, w', (if force then [] else [Exists (graph @ ''.node2type.bin'') False]) @
                   [LogInfo ''Creating node2type.bin'', Exists (graph @ ''.node2type.bin'') False,
                    Invoke ''swh-graph-node2type'' [graph] conf, Raised e])
            | (Inr u, w') \<Rightarrow>
                (Inr (), w', (if force then [] else [Exists (graph @ ''.node2type.bin'') False]) @
                   [LogInfo ''Creating node2type.bin'', Exists (graph @ ''.node2type.bin'') False,
                    Invoke ''swh-graph-node2type'' [graph] conf])))
      else (Inr (), w, [Exists (graph @ ''.node2type.bin'') True]))"
  by (simp add: step_c_def flag_or_missing_def bind_def prim_defs split: sum.splits prod.splits)

lemma reindex_eq:
  "reindex os conf force ef graph w =
     (case step_a os (default_profile conf) (ef \<or> force) graph w of
        (Inl e, w1, t1) \<Rightarrow> (Inl e, w1, t1)
      | (Inr u, w1, t1) \<Rightarrow>
          (case step_b os (default_profile conf) (ef \<or> force) graph w1 of
             (Inl e, w2, t2) \<Rightarrow> (Inl e, w2, t1 @ t2)
           | (Inr u, w2, t2) \<Rightarrow>
               (case step_c os (default_profile conf) force graph w2 of
                  (r, w3, t3) \<Rightarrow> (r, w3, t1 @ t2 @ t3))))"
  by (simp add: reindex_def Let_def bind_def split: prod.splits sum.splits)

lemma events_of_reindex:
  "events_of (reindex os conf force ef graph w) =
     events_of (step_a os (default_profile conf) (ef \<or> force) graph w) @
     (case result_of (step_a os (default_profile conf) (ef \<or> force) graph w) of
        Inl e \<Rightarrow> []
      | Inr u \<Rightarrow>
          events_of (step_b os (default_profile conf) (ef \<or> force) graph
            (world_of (step_a os (default_profile conf) (ef \<or> force) graph w))) @
          (case result_of (step_b os (default_profile conf) (ef \<or> force) graph
                  (world_of (step_a os (default_profile conf) (ef \<or> force) graph w))) of
             Inl e \<Rightarrow> []
           | Inr u \<Rightarrow>
               events_of (step_c os (default_profile conf) force graph
                 (world_of (step_b os (default_profile conf) (ef \<or> force) graph
                    (world_of (step_a os (default_profile conf) (ef \<or> force) graph w)))))))"
  by (simp add: reindex_def Let_def events_of_bind result_of_bind world_of_bind split: sum.splits)

lemma graph_cli_group_eq:
  \<open>graph_cli_group config_file conf profile w =
     (if map_of conf ''graph'' = None then
        (Inl (ValueError (''no "graph" stanza found in configuration file '' @
                (case config_file of None \<Rightarrow> ''None'' | Some f \<Rightarrow> f))),
         w,
         [Raised (ValueError (''no "graph" stanza found in configuration file '' @
                (case config_file of None \<Rightarrow> ''None'' | Some f \<Rightarrow> f)))])
      else
        (Inr (case profile of None \<Rightarrow> conf | Some p \<Rightarrow> AList.update ''profile'' (Str p) conf),
         w, []))\<close>
  by (simp add: graph_cli_group_def raise_def ret_def)

lemma events_of_main:
  "map_of conf_read ''graph'' \<noteq> None \<Longrightarrow>
     events_of (main os config_file conf_read profile force ef graph w) =
       events_of (reindex os
         (case profile of None \<Rightarrow> conf_read | Some p \<Rightarrow> AList.update ''profile'' (Str p) conf_read)
         force ef graph w)"
  by (cases "map_of conf_read ''graph''")
    (simp_all add: main_def graph_cli_group_eq bind_def events_of_def split: prod.splits)

lemma events_of_main_no_graph:
  "map_of conf_read ''graph'' = None \<Longrightarrow>
     \<exists>e. events_of (main os config_file conf_read profile force ef graph w) = [Raised e]"
  by (simp add: main_def graph_cli_group_eq bind_def events_of_def)

lemma default_profile_set: "map_of (default_profile conf) ''profile'' \<noteq> None"
  by (simp add: default_profile_def update_conv')

lemma default_profile_release:
  "map_of conf ''profile'' = None \<Longrightarrow> map_of (default_profile conf) ''profile'' = Some (Str ''release'')"
  by (simp add: default_profile_def update_conv')

lemma invocations_append: "invocations (xs @ ys) = invocations xs @ invocations ys"
  by (induction xs rule: invocations.induct) simp_all

lemma raised_append: "raised (xs @ ys) = raised xs @ raised ys"
  by (induction xs rule: raised.induct) simp_all

subsection \<open>Generator launches of a run\<close>

lemma invoke_in_step_a:
  "Invoke b a c \<in> set (events_of (step_a os conf ef graph w)) \<Longrightarrow>
     b = ''swh-graph-index'' \<and> a = [''ef'', graph] \<and> c = conf"
  by (auto simp: step_a_eq out_defs split: if_splits prod.splits sum.splits)

lemma invoke_in_step_b:
  "Invoke b a c \<in> set (events_of (step_b os conf ef graph w)) \<Longrightarrow>
     \<exists>text. read_text os w (graph @ ''.nodes.count.txt'') = Inr text \<and>
       b = ''swh-graph-index'' \<and> a = [''labels-ef'', graph @ ''-labelled'', strip text] \<and> c = conf"
  by (auto simp: step_b_eq out_defs split: if_splits prod.splits sum.splits)

lemma invoke_in_step_c:
  "Invoke b a c \<in> set (events_of (step_c os conf force graph w)) \<Longrightarrow>
     b = ''swh-graph-node2type'' \<and> a = [graph] \<and> c = conf"
  by (auto simp: step_c_eq out_defs split: if_splits prod.splits sum.splits)

lemma invoke_in_reindex:
  assumes "Invoke b a c \<in> set (events_of (reindex os conf force ef graph w))"
  shows "c = default_profile conf \<and>
     ((b = ''swh-graph-index'' \<and> a = [''ef'', graph]) \<or>
      (\<exists>text. read_text os (world_of (step_a os (default_profile conf) (ef \<or> force) graph w))
                 (graph @ ''.nodes.count.txt'') = Inr text \<and>
         b = ''swh-graph-index'' \<and> a = [''labels-ef'', graph @ ''-labelled'', strip text]) \<or>
      (b = ''swh-graph-node2type'' \<and> a = [graph]))"
proof -
  let ?oa = "step_a os (default_profile conf) (ef \<or> force) graph w"
  let ?ob = "step_b os (default_profile conf) (ef \<or> force) graph (world_of ?oa)"
  let ?oc = "step_c os (default_profile conf) force graph (world_of ?ob)"
  from assms have "Invoke b a c \<in> set (events_of ?oa) \<or> Invoke b a c \<in> set (events_of ?ob)
      \<or> Invoke b a c \<in> set (events_of ?oc)"
    by (auto simp: events_of_reindex split: sum.splits)
  then show ?thesis
    using invoke_in_step_a [of b a c os "default_profile conf" "ef \<or> force" graph w]
      invoke_in_step_b [of b a c os "default_profile conf" "ef \<or> force" graph "world_of ?oa"]
      invoke_in_step_c [of b a c os "default_profile conf" force graph "world_of ?ob"]
    by blast
qed

subsection \<open>Removals and existence checks of a run\<close>

lemma unlink_in_step_a: "Unlink p \<notin> set (events_of (step_a os conf ef graph w))"
  by (auto simp: step_a_eq out_defs split: if_splits prod.splits sum.splits)

lemma unlink_in_step_b: "Unlink p \<notin> set (events_of (step_b os conf ef graph w))"
  by (auto simp: step_b_eq out_defs split: if_splits prod.splits sum.splits)

lemma unlink_in_step_c:
  "Unlink p \<in> set (events_of (step_c os conf force graph w)) \<Longrightarrow>
     force \<and> p = graph @ ''.node2type.bin'' \<and> path_exists os w (graph @ ''.node2type.bin'')"
  by (auto simp: step_c_eq out_defs split: if_splits prod.splits sum.splits)

lemma unlink_in_reindex:
  "Unlink p \<in> set (events_of (reindex os conf force ef graph w)) \<Longrightarrow>
     force \<and> p = graph @ ''.node2type.bin''"
  by (auto simp: events_of_reindex unlink_in_step_a unlink_in_step_b split: sum.splits
      dest: unlink_in_step_c)

lemma step_c_invoke_after_absent:
  "Invoke b a c \<in> set (events_of (step_c os conf False graph w)) \<Longrightarrow>
     Exists (graph @ ''.node2type.bin'') False \<in> set (events_of (step_c os conf False graph w))"
  by (auto simp: step_c_eq out_defs split: if_splits prod.splits sum.splits)





subsection \<open>Outcome of each step\<close>

lemma step_a_outcome:
  assumes "step_a os conf ef graph w = (r, w', t)"
  shows "raised t = (case r of Inl e \<Rightarrow> [e] | Inr u \<Rightarrow> [])"
    and "r = Inl e \<Longrightarrow> t \<noteq> [] \<and> last t = Raised e"
    and "subseq (invocations t) [(''swh-graph-index'', [''ef'', graph])]"
    and "ef \<Longrightarrow> invocations t = [(''swh-graph-index'', [''ef'', graph])]"
  using assms
  by (auto simp: step_a_eq split: if_splits prod.splits sum.splits)

lemma step_b_outcome:
  assumes "step_b os conf ef graph w = (r, w', t)"
  shows "raised t = (case r of Inl e \<Rightarrow> [e] | Inr u \<Rightarrow> [])"
    and "r = Inl e \<Longrightarrow> t \<noteq> [] \<and> last t = Raised e"
    and "\<exists>n. subseq (invocations t) [(''swh-graph-index'', [''labels-ef'', graph @ ''-labelled'', n])]"
    and "ef \<Longrightarrow> r = Inr u \<Longrightarrow>
           \<exists>text. read_text os w (graph @ ''.nodes.count.txt'') = Inr text \<and>
             invocations t = [(''swh-graph-index'', [''labels-ef'', graph @ ''-labelled'', strip text])]"
  using assms
  by (auto simp: step_b_eq split: if_splits prod.splits sum.splits)

lemma step_c_outcome:
  assumes "step_c os conf force graph w = (r, w', t)"
  shows "raised t = (case r of Inl e \<Rightarrow> [e] | Inr u \<Rightarrow> [])"
    and "r = Inl e \<Longrightarrow> t \<noteq> [] \<and> last t = Raised e"
    and "subseq (invocations t) [(''swh-graph-node2type'', [graph])]"
    and "force \<Longrightarrow> r = Inr u \<Longrightarrow> invocations t = [(''swh-graph-node2type'', [graph])]"
  using assms
  by (auto simp: step_c_eq split: if_splits prod.splits sum.splits)

subsection \<open>Launches and failures in terms of the operating system\<close>

lemma order_and_single_exception:
  "(\<exists>n. subseq (invocations (events_of (reindex os conf force ef graph w)))
           [(''swh-graph-index'', [''ef'', graph]),
            (''swh-graph-index'', [''labels-ef'', graph @ ''-labelled'', n]),
            (''swh-graph-node2type'', [graph])])
   \<and> raised (events_of (reindex os conf force ef graph w)) =
       (case result_of (reindex os conf force ef graph w) of Inl e \<Rightarrow> [e] | Inr u \<Rightarrow> [])
   \<and> (\<forall>e. result_of (reindex os conf force ef graph w) = Inl e \<longrightarrow>
          events_of (reindex os conf force ef graph w) \<noteq> [] \<and>
          last (events_of (reindex os conf force ef graph w)) = Raised e)
   \<and> (\<forall>e. result_of (step_a os (default_profile conf) (ef \<or> force) graph w) = Inl e \<longrightarrow>
          reindex os conf force ef graph w =
            step_a os (default_profile conf) (ef \<or> force) graph w)
   \<and> (\<forall>w1 t1 e w2 t2.
          step_a os (default_profile conf) (ef \<or> force) graph w = (Inr (), w1, t1) \<and>
          step_b os (default_profile conf) (ef \<or> force) graph w1 = (Inl e, w2, t2) \<longrightarrow>
            reindex os conf force ef graph w = (Inl e, w2, t1 @ t2))"
proof -
  let ?c = "default_profile conf"
  obtain ra wa ta where a: "step_a os ?c (ef \<or> force) graph w = (ra, wa, ta)"
    by (cases "step_a os ?c (ef \<or> force) graph w") auto
  obtain rb wb tb where b: "step_b os ?c (ef \<or> force) graph wa = (rb, wb, tb)"
    by (cases "step_b os ?c (ef \<or> force) graph wa") auto
  obtain rc wc tc where c: "step_c os ?c force graph wb = (rc, wc, tc)"
    by (cases "step_c os ?c force graph wb") auto
  note fa = step_a_outcome(1,2,3) [OF a]
  note fb = step_b_outcome(1,2,3) [OF b]
  note fc = step_c_outcome(1,2,3) [OF c]
  from fb(3) obtain n where n:
    "subseq (invocations tb) [(''swh-graph-index'', [''labels-ef'', graph @ ''-labelled'', n])]"
    by blast
  have ab: "subseq (invocations ta @ invocations tb)
      ([(''swh-graph-index'', [''ef'', graph])] @
       [(''swh-graph-index'', [''labels-ef'', graph @ ''-labelled'', n])])"
    using fa(3) n by (rule list_emb_append_mono)
  have abc: "subseq ((invocations ta @ invocations tb) @ invocations tc)
      (([(''swh-graph-index'', [''ef'', graph])] @
        [(''swh-graph-index'', [''labels-ef'', graph @ ''-labelled'', n])]) @
       [(''swh-graph-node2type'', [graph])])"
    using ab fc(3) by (rule list_emb_append_mono)
  have a_only: "subseq (invocations ta)
      ([(''swh-graph-index'', [''ef'', graph])] @
       [(''swh-graph-index'', [''labels-ef'', graph @ ''-labelled'', n]),
        (''swh-graph-node2type'', [graph])])"
    using fa(3) by (rule list_emb_prefix)
  have ab_only: "subseq (invocations ta @ invocations tb)
      (([(''swh-graph-index'', [''ef'', graph])] @
        [(''swh-graph-index'', [''labels-ef'', graph @ ''-labelled'', n])]) @
       [(''swh-graph-node2type'', [graph])])"
    using ab by (rule list_emb_prefix)
  show ?thesis
  proof (cases ra)
    case (Inl ea)
    with a fa a_only show ?thesis
      by (auto simp: reindex_eq out_defs intro!: exI [of _ n])
  next
    case ra: (Inr ua)
    show ?thesis
    proof (cases rb)
      case (Inl eb)
      with a b ra fa fb ab_only show ?thesis
        by (auto simp: reindex_eq out_defs raised_append invocations_append intro!: exI [of _ n])
    next
      case rb: (Inr ub)
      show ?thesis
      proof (cases rc)
        case (Inl ec)
        with a b c ra rb fa fb fc abc show ?thesis
          by (auto simp: reindex_eq out_defs raised_append invocations_append intro!: exI [of _ n])
      next
        case (Inr uc)
        with a b c ra rb fa fb fc abc show ?thesis
          by (auto simp: reindex_eq out_defs raised_append invocations_append intro!: exI [of _ n])
      qed
    qed
  qed
qed


lemma labelled_launch_reads_sidecar:
  "Invoke ''swh-graph-index'' (''labels-ef'' # rest) c
       \<in> set (events_of (reindex os conf force ef graph w)) \<Longrightarrow>
     \<exists>text.
       read_text os (world_of (step_a os (default_profile conf) (ef \<or> force) graph w))
         (graph @ ''.nodes.count.txt'') = Inr text
       \<and> rest = [graph @ ''-labelled'', strip text]"
proof -
  assume "Invoke ''swh-graph-index'' (''labels-ef'' # rest) c
       \<in> set (events_of (reindex os conf force ef graph w))"
  from invoke_in_reindex [OF this] show ?thesis by auto
qed

lemma abort_when_forward_generator_fails:
  assumes "ef \<or> force \<or> \<not> path_exists os w (graph @ ''.ef'')"
    and "rust_run os ''swh-graph-index'' [''ef'', graph] (default_profile conf) w = (Inl e, w1)"
  shows "reindex os conf force ef graph w =
           (Inl e, w1,
            (if ef \<or> force then [] else [Exists (graph @ ''.ef'') False]) @
              [LogInfo ''Recreating Elias-Fano indexes on adjacency lists'',
               Invoke ''swh-graph-index'' [''ef'', graph] (default_profile conf), Raised e])"
  using assms by (simp add: reindex_eq step_a_eq)

lemma abort_when_sidecar_unreadable:
  assumes "step_a os (default_profile conf) (ef \<or> force) graph w = (Inr (), w1, t1)"
    and "ef \<or> force \<or> \<not> path_exists os w1 (graph @ ''-labelled.ef'')"
    and "read_text os w1 (graph @ ''.nodes.count.txt'') = Inl e"
  shows "reindex os conf force ef graph w =
           (Inl e, w1,
            t1 @ (if ef \<or> force then [] else [Exists (graph @ ''-labelled.ef'') False]) @
              [Open (graph @ ''.nodes.count.txt''), Raised e])"
  using assms by (simp add: reindex_eq step_b_eq)

lemma abort_when_label_generator_fails:
  assumes "step_a os (default_profile conf) (ef \<or> force) graph w = (Inr (), w1, t1)"
    and "ef \<or> force \<or> \<not> path_exists os w1 (graph @ ''-labelled.ef'')"
    and "read_text os w1 (graph @ ''.nodes.count.txt'') = Inr text"
    and "rust_run os ''swh-graph-index'' [''labels-ef'', graph @ ''-labelled'', strip text]
           (default_profile conf) w1 = (Inl e, w2)"
  shows "reindex os conf force ef graph w =
           (Inl e, w2,
            t1 @ (if ef \<or> force then [] else [Exists (graph @ ''-labelled.ef'') False]) @
              [Open (graph @ ''.nodes.count.txt''), Read (graph @ ''.nodes.count.txt'') text,
               LogInfo ''Recreating Elias-Fano indexes on arc labels'',
               Invoke ''swh-graph-index'' [''labels-ef'', graph @ ''-labelled'', strip text]
                 (default_profile conf),
               Raised e])"
  using assms by (simp add: reindex_eq step_b_eq)

lemma label_generator_launched_after_read:
  assumes sa: "step_a os (default_profile conf) (ef \<or> force) graph w = (Inr (), w1, t1)"
    and g: "ef \<or> force \<or> \<not> path_exists os w1 (graph @ ''-labelled.ef'')"
    and r: "read_text os w1 (graph @ ''.nodes.count.txt'') = Inr text"
  shows "\<exists>rest. events_of (reindex os conf force ef graph w) =
           t1 @ (if ef \<or> force then [] else [Exists (graph @ ''-labelled.ef'') False]) @
             [Open (graph @ ''.nodes.count.txt''), Read (graph @ ''.nodes.count.txt'') text,
              LogInfo ''Recreating Elias-Fano indexes on arc labels'',
              Invoke ''swh-graph-index'' [''labels-ef'', graph @ ''-labelled'', strip text]
                (default_profile conf)] @ rest"
proof -
  obtain rb w2 where b: "rust_run os ''swh-graph-index''
      [''labels-ef'', graph @ ''-labelled'', strip text] (default_profile conf) w1 = (rb, w2)"
    by (cases "rust_run os ''swh-graph-index''
      [''labels-ef'', graph @ ''-labelled'', strip text] (default_profile conf) w1") auto
  show ?thesis
  proof (cases rb)
    case (Inl e)
    with sa g r b show ?thesis
      by (simp add: reindex_eq step_b_eq events_of_def)
  next
    case (Inr u)
    obtain rc w3 tc where c: "step_c os (default_profile conf) force graph w2 = (rc, w3, tc)"
      by (cases "step_c os (default_profile conf) force graph w2") auto
    with sa g r b Inr show ?thesis
      by (simp add: reindex_eq step_b_eq events_of_def)
  qed
qed




subsection \<open>What \<open>strip\<close> removes\<close>

lemma strip_then_trailing:
  "dropWhile isspace s = strip s @ rev (takeWhile isspace (rev (dropWhile isspace s)))"
proof -
  let ?d = "dropWhile isspace s"
  have a: "rev (takeWhile isspace (rev ?d) @ dropWhile isspace (rev ?d)) = ?d"
    by simp
  have b: "rev (takeWhile isspace (rev ?d) @ dropWhile isspace (rev ?d)) =
      rev (dropWhile isspace (rev ?d)) @ rev (takeWhile isspace (rev ?d))"
    by (rule rev_append)
  show ?thesis
    unfolding strip_def by (rule trans [OF sym [OF a] b])
qed

lemma strip_decomposition:
  "s = takeWhile isspace s @ strip s @ rev (takeWhile isspace (rev (dropWhile isspace s)))"
proof -
  have e: "takeWhile isspace s @ dropWhile isspace s = s"
    by simp
  have "takeWhile isspace s @ dropWhile isspace s =
      takeWhile isspace s @ strip s @ rev (takeWhile isspace (rev (dropWhile isspace s)))"
    using strip_then_trailing [of s] by (rule arg_cong)
  with e [symmetric] show ?thesis by (rule trans)
qed

lemma strip_removes_only_whitespace:
  "\<exists>pre post. s = pre @ strip s @ post \<and> (\<forall>c\<in>set pre. isspace c) \<and> (\<forall>c\<in>set post. isspace c)"
proof (intro exI conjI)
  show "s = takeWhile isspace s @ strip s @ rev (takeWhile isspace (rev (dropWhile isspace s)))"
    by (rule strip_decomposition)
  show "\<forall>c\<in>set (takeWhile isspace s). isspace c"
    by (auto dest: set_takeWhileD)
  show "\<forall>c\<in>set (rev (takeWhile isspace (rev (dropWhile isspace s)))). isspace c"
    by (auto dest: set_takeWhileD)
qed

lemma strip_ends_not_whitespace:
  assumes "strip s \<noteq> []"
  shows "\<not> isspace (hd (strip s)) \<and> \<not> isspace (last (strip s))"
proof -
  let ?d = "dropWhile isspace s"
  let ?e = "dropWhile isspace (rev ?d)"
  obtain r where d: "?d = strip s @ r"
    using strip_then_trailing [of s] by blast
  from assms have e: "?e \<noteq> []" by (simp add: strip_def)
  then have "\<not> isspace (hd ?e)" by (rule hd_dropWhile)
  with e have l: "\<not> isspace (last (strip s))" by (simp add: strip_def last_rev)
  from d assms have "?d \<noteq> []" by (metis append_is_Nil_conv)
  then have "\<not> isspace (hd ?d)" by (rule hd_dropWhile)
  moreover from d assms have "hd ?d = hd (strip s)" by (metis hd_append2)
  ultimately have "\<not> isspace (hd (strip s))" by simp
  with l show ?thesis by simp
qed

lemma strip_examples:
  "strip ('' 42'' @ [CHR 0x0A]) = ''42''"
  "strip ''1 000'' = ''1 000''"
  "strip ''n/a'' = ''n/a''"
  "strip [] = []"
  by (simp_all add: strip_def isspace_def)

section \<open>Runs on the small file system\<close>

lemmas sim_defs = sim_os_def sim_rust_run_def default_profile_def strip_def isspace_def

lemma run_fresh:
  "reindex (sim_os []) [] False False ''g'' [(''g.nodes.count.txt'', '' 42'' @ [CHR 0x0A])] =
     (Inr (),
      [(''g.nodes.count.txt'', '' 42'' @ [CHR 0x0A]), (''g.ef'', ''forward index''),
       (''g-labelled.ef'', ''label index for 42''), (''g.node2type.bin'', ''node types'')],
      [Exists ''g.ef'' False,
       LogInfo ''Recreating Elias-Fano indexes on adjacency lists'',
       Invoke ''swh-graph-index'' [''ef'', ''g''] [(''profile'', Str ''release'')],
       Exists ''g-labelled.ef'' False,
       Open ''g.nodes.count.txt'', Read ''g.nodes.count.txt'' ('' 42'' @ [CHR 0x0A]),
       LogInfo ''Recreating Elias-Fano indexes on arc labels'',
       Invoke ''swh-graph-index'' [''labels-ef'', ''g-labelled'', ''42''] [(''profile'', Str ''release'')],
       Exists ''g.node2type.bin'' False,
       LogInfo ''Creating node2type.bin'',
       Exists ''g.node2type.bin'' False,
       Invoke ''swh-graph-node2type'' [''g''] [(''profile'', Str ''release'')]])"
  by (simp add: reindex_def Let_def step_a_eq step_b_eq step_c_eq bind_def sim_defs)

lemma run_ef_without_count:
  "reindex (sim_os []) [] False True ''g'' [] =
     (Inl (OSError ''g.nodes.count.txt''),
      [(''g.ef'', ''forward index'')],
      [LogInfo ''Recreating Elias-Fano indexes on adjacency lists'',
       Invoke ''swh-graph-index'' [''ef'', ''g''] [(''profile'', Str ''release'')],
       Open ''g.nodes.count.txt'', Raised (OSError ''g.nodes.count.txt'')])"
  by (simp add: reindex_def Let_def step_a_eq step_b_eq step_c_eq bind_def sim_defs)

lemma step_a_ef_empty:
  "step_a (sim_os []) [(''profile'', Str ''release'')] True ''g'' [] =
     (Inr (), [(''g.ef'', ''forward index'')],
      [LogInfo ''Recreating Elias-Fano indexes on adjacency lists'',
       Invoke ''swh-graph-index'' [''ef'', ''g''] [(''profile'', Str ''release'')]])"
  by (simp add: step_a_eq sim_defs)

lemma run_main_default_profile:
  "main (sim_os []) None [(''graph'', Dict [(''cls'', Str ''local''), (''grpc_server'', Dict [])])]
       None False False ''g''
       [(''g.ef'', ''old''), (''g-labelled.ef'', ''old''), (''g.nodes.count.txt'', ''7'')] =
     (Inr (),
      [(''g.ef'', ''old''), (''g-labelled.ef'', ''old''), (''g.nodes.count.txt'', ''7''),
       (''g.node2type.bin'', ''node types'')],
      [Exists ''g.ef'' True, Exists ''g-labelled.ef'' True, Exists ''g.node2type.bin'' False,
       LogInfo ''Creating node2type.bin'', Exists ''g.node2type.bin'' False,
       Invoke ''swh-graph-node2type'' [''g'']
         [(''graph'', Dict [(''cls'', Str ''local''), (''grpc_server'', Dict [])]),
          (''profile'', Str ''release'')]])"
  by (simp add: main_def graph_cli_group_eq reindex_def Let_def step_a_eq step_b_eq
      step_c_eq bind_def sim_defs)

lemma run_ef_only:
  "reindex (sim_os []) [] False True ''g''
       [(''g.nodes.count.txt'', ''7''), (''g.ef'', ''old''), (''g-labelled.ef'', ''old''),
        (''g.node2type.bin'', ''old types'')] =
     (Inr (),
      [(''g.nodes.count.txt'', ''7''), (''g.ef'', ''forward index''),
       (''g-labelled.ef'', ''label index for 7''), (''g.node2type.bin'', ''old types'')],
      [LogInfo ''Recreating Elias-Fano indexes on adjacency lists'',
       Invoke ''swh-graph-index'' [''ef'', ''g''] [(''profile'', Str ''release'')],
       Open ''g.nodes.count.txt'', Read ''g.nodes.count.txt'' ''7'',
       LogInfo ''Recreating Elias-Fano indexes on arc labels'',
       Invoke ''swh-graph-index'' [''labels-ef'', ''g-labelled'', ''7''] [(''profile'', Str ''release'')],
       Exists ''g.node2type.bin'' True])"
  by (simp add: reindex_def Let_def step_a_eq step_b_eq step_c_eq bind_def sim_defs)

lemma steps_ab_ef_only:
  "bind (step_a (sim_os []) (default_profile []) True ''g'')
        (\<lambda>_. step_b (sim_os []) (default_profile []) True ''g'')
       [(''g.nodes.count.txt'', ''7''), (''g.ef'', ''old''), (''g-labelled.ef'', ''old''),
        (''g.node2type.bin'', ''old types'')] =
     (Inr (),
      [(''g.nodes.count.txt'', ''7''), (''g.ef'', ''forward index''),
       (''g-labelled.ef'', ''label index for 7''), (''g.node2type.bin'', ''old types'')],
      [LogInfo ''Recreating Elias-Fano indexes on adjacency lists'',
       Invoke ''swh-graph-index'' [''ef'', ''g''] [(''profile'', Str ''release'')],
       Open ''g.nodes.count.txt'', Read ''g.nodes.count.txt'' ''7'',
       LogInfo ''Recreating Elias-Fano indexes on arc labels'',
       Invoke ''swh-graph-index'' [''labels-ef'', ''g-labelled'', ''7''] [(''profile'', Str ''release'')]])"
  by (simp add: step_a_eq step_b_eq bind_def sim_defs)

lemma run_broken_forward:
  "reindex (sim_os [(''swh-graph-index'', [''ef'', ''g''])]) [] True False ''g''
       [(''g.nodes.count.txt'', ''7'')] =
     (Inl (CalledProcessError ''swh-graph-index'' [''ef'', ''g'']),
      [(''g.nodes.count.txt'', ''7'')],
      [LogInfo ''Recreating Elias-Fano indexes on adjacency lists'',
       Invoke ''swh-graph-index'' [''ef'', ''g''] [(''profile'', Str ''release'')],
       Raised (CalledProcessError ''swh-graph-index'' [''ef'', ''g''])])"
  by (simp add: reindex_def Let_def step_a_eq step_b_eq step_c_eq bind_def sim_defs)



lemma run_forced_fresh:
  "reindex (sim_os []) [] True False ''g'' [(''g.nodes.count.txt'', ''7'')] =
     (Inr (),
      [(''g.nodes.count.txt'', ''7''), (''g.ef'', ''forward index''),
       (''g-labelled.ef'', ''label index for 7''), (''g.node2type.bin'', ''node types'')],
      [LogInfo ''Recreating Elias-Fano indexes on adjacency lists'',
       Invoke ''swh-graph-index'' [''ef'', ''g''] [(''profile'', Str ''release'')],
       Open ''g.nodes.count.txt'', Read ''g.nodes.count.txt'' ''7'',
       LogInfo ''Recreating Elias-Fano indexes on arc labels'',
       Invoke ''swh-graph-index'' [''labels-ef'', ''g-labelled'', ''7''] [(''profile'', Str ''release'')],
       LogInfo ''Creating node2type.bin'',
       Exists ''g.node2type.bin'' False,
       Invoke ''swh-graph-node2type'' [''g''] [(''profile'', Str ''release'')]])"
  by (simp add: reindex_def Let_def step_a_eq step_b_eq step_c_eq bind_def sim_defs)

lemma run_broken_labels:
  "reindex (sim_os [(''swh-graph-index'', [''labels-ef'', ''g-labelled'', ''7''])]) [] False False ''g''
       [(''g.nodes.count.txt'', ''7'')] =
     (Inl (CalledProcessError ''swh-graph-index'' [''labels-ef'', ''g-labelled'', ''7'']),
      [(''g.nodes.count.txt'', ''7''), (''g.ef'', ''forward index'')],
      [Exists ''g.ef'' False,
       LogInfo ''Recreating Elias-Fano indexes on adjacency lists'',
       Invoke ''swh-graph-index'' [''ef'', ''g''] [(''profile'', Str ''release'')],
       Exists ''g-labelled.ef'' False,
       Open ''g.nodes.count.txt'', Read ''g.nodes.count.txt'' ''7'',
       LogInfo ''Recreating Elias-Fano indexes on arc labels'',
       Invoke ''swh-graph-index'' [''labels-ef'', ''g-labelled'', ''7''] [(''profile'', Str ''release'')],
       Raised (CalledProcessError ''swh-graph-index'' [''labels-ef'', ''g-labelled'', ''7''])])"
  by (simp add: reindex_def Let_def step_a_eq step_b_eq step_c_eq bind_def sim_defs)

lemma run_count_not_a_number:
  "reindex (sim_os []) [] False False ''g'' [(''g.nodes.count.txt'', '' n/a'' @ [CHR 0x0A])] =
     (Inr (),
      [(''g.nodes.count.txt'', '' n/a'' @ [CHR 0x0A]), (''g.ef'', ''forward index''),
       (''g-labelled.ef'', ''label index for n/a''), (''g.node2type.bin'', ''node types'')],
      [Exists ''g.ef'' False,
       LogInfo ''Recreating Elias-Fano indexes on adjacency lists'',
       Invoke ''swh-graph-index'' [''ef'', ''g''] [(''profile'', Str ''release'')],
       Exists ''g-labelled.ef'' False,
       Open ''g.nodes.count.txt'', Read ''g.nodes.count.txt'' ('' n/a'' @ [CHR 0x0A]),
       LogInfo ''Recreating Elias-Fano indexes on arc labels'',
       Invoke ''swh-graph-index'' [''labels-ef'', ''g-labelled'', ''n/a''] [(''profile'', Str ''release'')],
       Exists ''g.node2type.bin'' False,
       LogInfo ''Creating node2type.bin'',
       Exists ''g.node2type.bin'' False,
       Invoke ''swh-graph-node2type'' [''g''] [(''profile'', Str ''release'')]])"
  by (simp add: reindex_def Let_def step_a_eq step_b_eq step_c_eq bind_def sim_defs)

section \<open>The claims\<close>







text \<open>
  Claim C3. When Step B is reached with its guard true (\<open>force\<close> or \<open>ef\<close> given, or
  \<open><prefix>-labelled.ef\<close> absent) and reading \<open><prefix>.nodes.count.txt\<close> raises,
  the run ends with that exception, in the world Step A left, right after the attempt
  to open the sidecar: the label-index generator is not launched, and nothing runs
  afterwards. Moreover, in every run, whatever Step A did, an unreadable sidecar means
  that no label-index generator is launched, with any count.
\<close>

theorem unreadable_sidecar_aborts_step_b:
  "(\<forall>w1 t1 e.
      step_a os (default_profile conf) (ef \<or> force) graph w = (Inr (), w1, t1) \<and>
      (ef \<or> force \<or> \<not> path_exists os w1 (graph @ ''-labelled.ef'')) \<and>
      read_text os w1 (graph @ ''.nodes.count.txt'') = Inl e \<longrightarrow>
        reindex os conf force ef graph w =
          (Inl e, w1,
           t1 @ (if ef \<or> force then [] else [Exists (graph @ ''-labelled.ef'') False]) @
             [Open (graph @ ''.nodes.count.txt''), Raised e]))
   \<and> (\<forall>e. read_text os (world_of (step_a os (default_profile conf) (ef \<or> force) graph w))
            (graph @ ''.nodes.count.txt'') = Inl e \<longrightarrow>
          (\<forall>a c. Invoke ''swh-graph-index'' (''labels-ef'' # a) c
             \<notin> set (events_of (reindex os conf force ef graph w))))"
proof (intro conjI allI impI)
  fix w1 t1 e
  assume "step_a os (default_profile conf) (ef \<or> force) graph w = (Inr (), w1, t1) \<and>
      (ef \<or> force \<or> \<not> path_exists os w1 (graph @ ''-labelled.ef'')) \<and>
      read_text os w1 (graph @ ''.nodes.count.txt'') = Inl e"
  then show "reindex os conf force ef graph w =
          (Inl e, w1,
           t1 @ (if ef \<or> force then [] else [Exists (graph @ ''-labelled.ef'') False]) @
             [Open (graph @ ''.nodes.count.txt''), Raised e])"
    by (auto simp: reindex_def Let_def bind_def step_b_eq)
next
  fix e a c
  assume unreadable: "read_text os (world_of (step_a os (default_profile conf) (ef \<or> force) graph w))
            (graph @ ''.nodes.count.txt'') = Inl e"
  show "Invoke ''swh-graph-index'' (''labels-ef'' # a) c
             \<notin> set (events_of (reindex os conf force ef graph w))"
  proof
    assume "Invoke ''swh-graph-index'' (''labels-ef'' # a) c
             \<in> set (events_of (reindex os conf force ef graph w))"
    from invoke_in_reindex [OF this] unreadable show False by auto
  qed
qed

theorem unreadable_sidecar_aborts_step_b_witness:
  "step_a (sim_os []) (default_profile []) (True \<or> False) ''g'' [] =
     (Inr (), [(''g.ef'', ''forward index'')],
      [LogInfo ''Recreating Elias-Fano indexes on adjacency lists'',
       Invoke ''swh-graph-index'' [''ef'', ''g''] [(''profile'', Str ''release'')]])
   \<and> read_text (sim_os []) [(''g.ef'', ''forward index'')] ''g.nodes.count.txt'' =
       Inl (OSError ''g.nodes.count.txt'')
   \<and> reindex (sim_os []) [] False True ''g'' [] =
       (Inl (OSError ''g.nodes.count.txt''),
        [(''g.ef'', ''forward index'')],
        [LogInfo ''Recreating Elias-Fano indexes on adjacency lists'',
         Invoke ''swh-graph-index'' [''ef'', ''g''] [(''profile'', Str ''release'')],
         Open ''g.nodes.count.txt'', Raised (OSError ''g.nodes.count.txt'')])
   \<and> Invoke ''swh-graph-index'' [''labels-ef'', ''g-labelled'', ''''] [(''profile'', Str ''release'')]
       \<notin> set (events_of (reindex (sim_os []) [] False True ''g'' []))"
  using unreadable_sidecar_aborts_step_b
    [where os = "sim_os []" and conf = "[]" and ef = True and force = False and graph = "''g''"
       and w = "[]"]
    step_a_ef_empty
  by (simp add: sim_os_def default_profile_def world_of_def events_of_def)

text \<open>
  Claim C4. When the three artifacts exist and neither \<open>force\<close> nor \<open>ef\<close> is
  given, the run returns normally, performs the three existence checks and nothing
  else, launches no generator and leaves the world as it was; running it again in the
  world it left gives the same run.
\<close>

theorem converged_run_is_noop:
  assumes "path_exists os w (graph @ ''.ef'')"
    and "path_exists os w (graph @ ''-labelled.ef'')"
    and "path_exists os w (graph @ ''.node2type.bin'')"
  shows "reindex os conf False False graph w =
           (Inr (), w,
            [Exists (graph @ ''.ef'') True, Exists (graph @ ''-labelled.ef'') True,
             Exists (graph @ ''.node2type.bin'') True])
         \<and> invocations (events_of (reindex os conf False False graph w)) = []
         \<and> reindex os conf False False graph (world_of (reindex os conf False False graph w)) =
             reindex os conf False False graph w"
  using assms
  by (simp add: reindex_def Let_def step_a_eq step_b_eq step_c_eq bind_def out_defs)

theorem converged_run_is_noop_witness:
  "world_of (reindex (sim_os []) [] False False ''g'' [(''g.nodes.count.txt'', '' 42'' @ [CHR 0x0A])]) =
     [(''g.nodes.count.txt'', '' 42'' @ [CHR 0x0A]), (''g.ef'', ''forward index''),
       (''g-labelled.ef'', ''label index for 42''), (''g.node2type.bin'', ''node types'')]
   \<and> reindex (sim_os []) [] False False ''g''
       [(''g.nodes.count.txt'', '' 42'' @ [CHR 0x0A]), (''g.ef'', ''forward index''),
        (''g-labelled.ef'', ''label index for 42''), (''g.node2type.bin'', ''node types'')] =
     (Inr (),
      [(''g.nodes.count.txt'', '' 42'' @ [CHR 0x0A]), (''g.ef'', ''forward index''),
       (''g-labelled.ef'', ''label index for 42''), (''g.node2type.bin'', ''node types'')],
      [Exists ''g.ef'' True, Exists ''g-labelled.ef'' True, Exists ''g.node2type.bin'' True])"
  using converged_run_is_noop
    [of "sim_os []" "[(''g.nodes.count.txt'', '' 42'' @ [CHR 0x0A]), (''g.ef'', ''forward index''),
       (''g-labelled.ef'', ''label index for 42''), (''g.node2type.bin'', ''node types'')]" "''g''" "[]"]
    run_fresh
  by (simp add: sim_os_def out_defs)

text \<open>
  Claim C5. Without \<open>force\<close>, whatever \<open>ef\<close> is: when Steps A and B have returned and
  \<open><prefix>.node2type.bin\<close> exists, Step C only checks that the file exists; the run
  returns in the world that Steps A and B left. The run never calls \<open>os.unlink\<close>, and
  it launches the node-type generator only after an existence check has answered that
  the file is absent. Step C does not take the \<open>ef\<close> flag at all.
\<close>

theorem node_type_step_skipped_without_force:
  "(\<forall>w2 t2.
      bind (step_a os (default_profile conf) ef graph)
           (\<lambda>_. step_b os (default_profile conf) ef graph) w = (Inr (), w2, t2) \<and>
      path_exists os w2 (graph @ ''.node2type.bin'') \<longrightarrow>
        reindex os conf False ef graph w =
          (Inr (), w2, t2 @ [Exists (graph @ ''.node2type.bin'') True]))
   \<and> (\<forall>p. Unlink p \<notin> set (events_of (reindex os conf False ef graph w)))
   \<and> (Exists (graph @ ''.node2type.bin'') False
          \<notin> set (events_of (reindex os conf False ef graph w)) \<longrightarrow>
        (\<forall>a c. Invoke ''swh-graph-node2type'' a c
           \<notin> set (events_of (reindex os conf False ef graph w))))"
proof (intro conjI allI impI)
  fix w2 t2
  assume "bind (step_a os (default_profile conf) ef graph)
           (\<lambda>_. step_b os (default_profile conf) ef graph) w = (Inr (), w2, t2) \<and>
      path_exists os w2 (graph @ ''.node2type.bin'')"
  then show "reindex os conf False ef graph w =
          (Inr (), w2, t2 @ [Exists (graph @ ''.node2type.bin'') True])"
    by (auto simp: reindex_def Let_def bind_def step_c_eq split: prod.splits sum.splits)
next
  fix p
  show "Unlink p \<notin> set (events_of (reindex os conf False ef graph w))"
    using unlink_in_reindex [of p os conf False ef graph w] by blast
next
  fix a c
  assume absent: "Exists (graph @ ''.node2type.bin'') False
          \<notin> set (events_of (reindex os conf False ef graph w))"
  show "Invoke ''swh-graph-node2type'' a c
           \<notin> set (events_of (reindex os conf False ef graph w))"
  proof
    assume "Invoke ''swh-graph-node2type'' a c
           \<in> set (events_of (reindex os conf False ef graph w))"
    with absent show False
      by (auto simp: events_of_reindex split: sum.splits
          dest: invoke_in_step_a invoke_in_step_b step_c_invoke_after_absent)
  qed
qed

theorem node_type_step_skipped_without_force_witness:
  "path_exists (sim_os [])
       [(''g.nodes.count.txt'', ''7''), (''g.ef'', ''forward index''),
        (''g-labelled.ef'', ''label index for 7''), (''g.node2type.bin'', ''old types'')]
       ''g.node2type.bin''
   \<and> reindex (sim_os []) [] False True ''g''
       [(''g.nodes.count.txt'', ''7''), (''g.ef'', ''old''), (''g-labelled.ef'', ''old''),
        (''g.node2type.bin'', ''old types'')] =
     (Inr (),
      [(''g.nodes.count.txt'', ''7''), (''g.ef'', ''forward index''),
       (''g-labelled.ef'', ''label index for 7''), (''g.node2type.bin'', ''old types'')],
      [LogInfo ''Recreating Elias-Fano indexes on adjacency lists'',
       Invoke ''swh-graph-index'' [''ef'', ''g''] [(''profile'', Str ''release'')],
       Open ''g.nodes.count.txt'', Read ''g.nodes.count.txt'' ''7'',
       LogInfo ''Recreating Elias-Fano indexes on arc labels'',
       Invoke ''swh-graph-index'' [''labels-ef'', ''g-labelled'', ''7''] [(''profile'', Str ''release'')],
       Exists ''g.node2type.bin'' True])"
  using node_type_step_skipped_without_force
    [where os = "sim_os []" and conf = "[]" and ef = True and graph = "''g''"
       and w = "[(''g.nodes.count.txt'', ''7''), (''g.ef'', ''old''), (''g-labelled.ef'', ''old''),
        (''g.node2type.bin'', ''old types'')]"]
    steps_ab_ef_only
  by (simp add: sim_os_def)

text \<open>
  Claim C6. The generator launches of a run are, in this order, the forward index, the
  label index and the node-type generator, each at most once. A run has an
  exception event exactly when it fails, it has only one, and that event is the last of
  the run: nothing is attempted after an exception. In particular, when Step A fails
  the run is Step A's outcome, and when Step B fails the run is the events of Step A
  followed by those of Step B; Step C does not start. In terms of the operating
  system: when the forward-index generator exits abnormally, the run ends with its
  exception right after that launch; when Step B is reached and the sidecar cannot be
  read, the run ends with that exception right after the attempt to open it; when the
  label-index generator exits abnormally, the run ends with its exception right after
  that launch. In the three cases no operation of a later step appears.
\<close>

theorem steps_in_order_and_abort_on_error:
  "(\<exists>n. subseq (invocations (events_of (reindex os conf force ef graph w)))
           [(''swh-graph-index'', [''ef'', graph]),
            (''swh-graph-index'', [''labels-ef'', graph @ ''-labelled'', n]),
            (''swh-graph-node2type'', [graph])])
   \<and> raised (events_of (reindex os conf force ef graph w)) =
       (case result_of (reindex os conf force ef graph w) of Inl e \<Rightarrow> [e] | Inr u \<Rightarrow> [])
   \<and> (\<forall>e. result_of (reindex os conf force ef graph w) = Inl e \<longrightarrow>
          events_of (reindex os conf force ef graph w) \<noteq> [] \<and>
          last (events_of (reindex os conf force ef graph w)) = Raised e)
   \<and> (\<forall>e. result_of (step_a os (default_profile conf) (ef \<or> force) graph w) = Inl e \<longrightarrow>
          reindex os conf force ef graph w =
            step_a os (default_profile conf) (ef \<or> force) graph w)
   \<and> (\<forall>w1 t1 e w2 t2.
          step_a os (default_profile conf) (ef \<or> force) graph w = (Inr (), w1, t1) \<and>
          step_b os (default_profile conf) (ef \<or> force) graph w1 = (Inl e, w2, t2) \<longrightarrow>
            reindex os conf force ef graph w = (Inl e, w2, t1 @ t2))
   \<and> (\<forall>e w1.
          (ef \<or> force \<or> \<not> path_exists os w (graph @ ''.ef'')) \<and>
          rust_run os ''swh-graph-index'' [''ef'', graph] (default_profile conf) w = (Inl e, w1) \<longrightarrow>
            reindex os conf force ef graph w =
              (Inl e, w1,
               (if ef \<or> force then [] else [Exists (graph @ ''.ef'') False]) @
                 [LogInfo ''Recreating Elias-Fano indexes on adjacency lists'',
                  Invoke ''swh-graph-index'' [''ef'', graph] (default_profile conf), Raised e]))
   \<and> (\<forall>w1 t1 e.
          step_a os (default_profile conf) (ef \<or> force) graph w = (Inr (), w1, t1) \<and>
          (ef \<or> force \<or> \<not> path_exists os w1 (graph @ ''-labelled.ef'')) \<and>
          read_text os w1 (graph @ ''.nodes.count.txt'') = Inl e \<longrightarrow>
            reindex os conf force ef graph w =
              (Inl e, w1,
               t1 @ (if ef \<or> force then [] else [Exists (graph @ ''-labelled.ef'') False]) @
                 [Open (graph @ ''.nodes.count.txt''), Raised e]))
   \<and> (\<forall>w1 t1 cnt e w2.
          step_a os (default_profile conf) (ef \<or> force) graph w = (Inr (), w1, t1) \<and>
          (ef \<or> force \<or> \<not> path_exists os w1 (graph @ ''-labelled.ef'')) \<and>
          read_text os w1 (graph @ ''.nodes.count.txt'') = Inr cnt \<and>
          rust_run os ''swh-graph-index'' [''labels-ef'', graph @ ''-labelled'', strip cnt]
            (default_profile conf) w1 = (Inl e, w2) \<longrightarrow>
            reindex os conf force ef graph w =
              (Inl e, w2,
               t1 @ (if ef \<or> force then [] else [Exists (graph @ ''-labelled.ef'') False]) @
                 [Open (graph @ ''.nodes.count.txt''), Read (graph @ ''.nodes.count.txt'') cnt,
                  LogInfo ''Recreating Elias-Fano indexes on arc labels'',
                  Invoke ''swh-graph-index'' [''labels-ef'', graph @ ''-labelled'', strip cnt]
                    (default_profile conf),
                  Raised e]))"
proof -
  note old = order_and_single_exception [of os conf force ef graph w]
  have sixth: "\<forall>e w1.
          (ef \<or> force \<or> \<not> path_exists os w (graph @ ''.ef'')) \<and>
          rust_run os ''swh-graph-index'' [''ef'', graph] (default_profile conf) w = (Inl e, w1) \<longrightarrow>
            reindex os conf force ef graph w =
              (Inl e, w1,
               (if ef \<or> force then [] else [Exists (graph @ ''.ef'') False]) @
                 [LogInfo ''Recreating Elias-Fano indexes on adjacency lists'',
                  Invoke ''swh-graph-index'' [''ef'', graph] (default_profile conf), Raised e])"
  proof (intro allI impI)
    fix e w1
    assume h: "(ef \<or> force \<or> \<not> path_exists os w (graph @ ''.ef'')) \<and>
          rust_run os ''swh-graph-index'' [''ef'', graph] (default_profile conf) w = (Inl e, w1)"
    show "reindex os conf force ef graph w =
              (Inl e, w1,
               (if ef \<or> force then [] else [Exists (graph @ ''.ef'') False]) @
                 [LogInfo ''Recreating Elias-Fano indexes on adjacency lists'',
                  Invoke ''swh-graph-index'' [''ef'', graph] (default_profile conf), Raised e])"
      by (rule abort_when_forward_generator_fails [OF h [THEN conjunct1] h [THEN conjunct2]])
  qed
  have seventh: "\<forall>w1 t1 e.
          step_a os (default_profile conf) (ef \<or> force) graph w = (Inr (), w1, t1) \<and>
          (ef \<or> force \<or> \<not> path_exists os w1 (graph @ ''-labelled.ef'')) \<and>
          read_text os w1 (graph @ ''.nodes.count.txt'') = Inl e \<longrightarrow>
            reindex os conf force ef graph w =
              (Inl e, w1,
               t1 @ (if ef \<or> force then [] else [Exists (graph @ ''-labelled.ef'') False]) @
                 [Open (graph @ ''.nodes.count.txt''), Raised e])"
  proof (intro allI impI)
    fix w1 t1 e
    assume h: "step_a os (default_profile conf) (ef \<or> force) graph w = (Inr (), w1, t1) \<and>
          (ef \<or> force \<or> \<not> path_exists os w1 (graph @ ''-labelled.ef'')) \<and>
          read_text os w1 (graph @ ''.nodes.count.txt'') = Inl e"
    show "reindex os conf force ef graph w =
              (Inl e, w1,
               t1 @ (if ef \<or> force then [] else [Exists (graph @ ''-labelled.ef'') False]) @
                 [Open (graph @ ''.nodes.count.txt''), Raised e])"
      by (rule abort_when_sidecar_unreadable
            [OF h [THEN conjunct1] h [THEN conjunct2, THEN conjunct1]
                h [THEN conjunct2, THEN conjunct2]])
  qed
  have eighth: "\<forall>w1 t1 cnt e w2.
          step_a os (default_profile conf) (ef \<or> force) graph w = (Inr (), w1, t1) \<and>
          (ef \<or> force \<or> \<not> path_exists os w1 (graph @ ''-labelled.ef'')) \<and>
          read_text os w1 (graph @ ''.nodes.count.txt'') = Inr cnt \<and>
          rust_run os ''swh-graph-index'' [''labels-ef'', graph @ ''-labelled'', strip cnt]
            (default_profile conf) w1 = (Inl e, w2) \<longrightarrow>
            reindex os conf force ef graph w =
              (Inl e, w2,
               t1 @ (if ef \<or> force then [] else [Exists (graph @ ''-labelled.ef'') False]) @
                 [Open (graph @ ''.nodes.count.txt''), Read (graph @ ''.nodes.count.txt'') cnt,
                  LogInfo ''Recreating Elias-Fano indexes on arc labels'',
                  Invoke ''swh-graph-index'' [''labels-ef'', graph @ ''-labelled'', strip cnt]
                    (default_profile conf),
                  Raised e])"
  proof (intro allI impI)
    fix w1 t1 cnt e w2
    assume h: "step_a os (default_profile conf) (ef \<or> force) graph w = (Inr (), w1, t1) \<and>
          (ef \<or> force \<or> \<not> path_exists os w1 (graph @ ''-labelled.ef'')) \<and>
          read_text os w1 (graph @ ''.nodes.count.txt'') = Inr cnt \<and>
          rust_run os ''swh-graph-index'' [''labels-ef'', graph @ ''-labelled'', strip cnt]
            (default_profile conf) w1 = (Inl e, w2)"
    show "reindex os conf force ef graph w =
              (Inl e, w2,
               t1 @ (if ef \<or> force then [] else [Exists (graph @ ''-labelled.ef'') False]) @
                 [Open (graph @ ''.nodes.count.txt''), Read (graph @ ''.nodes.count.txt'') cnt,
                  LogInfo ''Recreating Elias-Fano indexes on arc labels'',
                  Invoke ''swh-graph-index'' [''labels-ef'', graph @ ''-labelled'', strip cnt]
                    (default_profile conf),
                  Raised e])"
      by (rule abort_when_label_generator_fails
            [OF h [THEN conjunct1] h [THEN conjunct2, THEN conjunct1]
                h [THEN conjunct2, THEN conjunct2, THEN conjunct1]
                h [THEN conjunct2, THEN conjunct2, THEN conjunct2]])
  qed
  show ?thesis
    by (intro conjI)
      (rule old [THEN conjunct1] old [THEN conjunct2, THEN conjunct1]
         old [THEN conjunct2, THEN conjunct2, THEN conjunct1]
         old [THEN conjunct2, THEN conjunct2, THEN conjunct2, THEN conjunct1]
         old [THEN conjunct2, THEN conjunct2, THEN conjunct2, THEN conjunct2]
         sixth seventh eighth)+
qed

theorem steps_in_order_and_abort_on_error_witness:
  "rust_run (sim_os [(''swh-graph-index'', [''ef'', ''g''])]) ''swh-graph-index'' [''ef'', ''g'']
       (default_profile []) [(''g.nodes.count.txt'', ''7'')] =
     (Inl (CalledProcessError ''swh-graph-index'' [''ef'', ''g'']), [(''g.nodes.count.txt'', ''7'')])
   \<and> reindex (sim_os [(''swh-graph-index'', [''ef'', ''g''])]) [] True False ''g''
       [(''g.nodes.count.txt'', ''7'')] =
     (Inl (CalledProcessError ''swh-graph-index'' [''ef'', ''g'']),
      [(''g.nodes.count.txt'', ''7'')],
      [LogInfo ''Recreating Elias-Fano indexes on adjacency lists'',
       Invoke ''swh-graph-index'' [''ef'', ''g''] [(''profile'', Str ''release'')],
       Raised (CalledProcessError ''swh-graph-index'' [''ef'', ''g''])])
   \<and> rust_run (sim_os [(''swh-graph-index'', [''labels-ef'', ''g-labelled'', ''7''])])
       ''swh-graph-index'' [''labels-ef'', ''g-labelled'', ''7''] (default_profile [])
       [(''g.nodes.count.txt'', ''7''), (''g.ef'', ''forward index'')] =
     (Inl (CalledProcessError ''swh-graph-index'' [''labels-ef'', ''g-labelled'', ''7'']),
      [(''g.nodes.count.txt'', ''7''), (''g.ef'', ''forward index'')])
   \<and> reindex (sim_os [(''swh-graph-index'', [''labels-ef'', ''g-labelled'', ''7''])]) [] False False
       ''g'' [(''g.nodes.count.txt'', ''7'')] =
     (Inl (CalledProcessError ''swh-graph-index'' [''labels-ef'', ''g-labelled'', ''7'']),
      [(''g.nodes.count.txt'', ''7''), (''g.ef'', ''forward index'')],
      [Exists ''g.ef'' False,
       LogInfo ''Recreating Elias-Fano indexes on adjacency lists'',
       Invoke ''swh-graph-index'' [''ef'', ''g''] [(''profile'', Str ''release'')],
       Exists ''g-labelled.ef'' False,
       Open ''g.nodes.count.txt'', Read ''g.nodes.count.txt'' ''7'',
       LogInfo ''Recreating Elias-Fano indexes on arc labels'',
       Invoke ''swh-graph-index'' [''labels-ef'', ''g-labelled'', ''7''] [(''profile'', Str ''release'')],
       Raised (CalledProcessError ''swh-graph-index'' [''labels-ef'', ''g-labelled'', ''7''])])"
proof -
  let ?w0 = "[(''g.nodes.count.txt'', ''7'')]"
  let ?w1 = "[(''g.nodes.count.txt'', ''7''), (''g.ef'', ''forward index'')]"
  let ?ba = "[(''swh-graph-index'', [''ef'', ''g''])]"
  let ?bb = "[(''swh-graph-index'', [''labels-ef'', ''g-labelled'', ''7''])]"
  have fa: "rust_run (sim_os ?ba) ''swh-graph-index'' [''ef'', ''g''] (default_profile []) ?w0 =
      (Inl (CalledProcessError ''swh-graph-index'' [''ef'', ''g'']), ?w0)"
    by (simp add: sim_defs)
  have ga: "False \<or> True \<or> \<not> path_exists (sim_os ?ba) ?w0 (''g'' @ ''.ef'')"
    by simp
  note ta = steps_in_order_and_abort_on_error
    [where os = "sim_os ?ba" and conf = "[]" and force = True and ef = False and graph = "''g''"
       and w = ?w0,
     THEN conjunct2, THEN conjunct2, THEN conjunct2, THEN conjunct2, THEN conjunct2,
     THEN conjunct1]
  have ra: "reindex (sim_os ?ba) [] True False ''g'' ?w0 =
      (Inl (CalledProcessError ''swh-graph-index'' [''ef'', ''g'']), ?w0,
       (if False \<or> True then [] else [Exists (''g'' @ ''.ef'') False]) @
         [LogInfo ''Recreating Elias-Fano indexes on adjacency lists'',
          Invoke ''swh-graph-index'' [''ef'', ''g''] (default_profile []),
          Raised (CalledProcessError ''swh-graph-index'' [''ef'', ''g''])])"
    by (rule ta [rule_format, OF conjI [OF ga fa]])
  have sa: "step_a (sim_os ?bb) (default_profile []) (False \<or> False) ''g'' ?w0 =
      (Inr (), ?w1,
       [Exists ''g.ef'' False,
        LogInfo ''Recreating Elias-Fano indexes on adjacency lists'',
        Invoke ''swh-graph-index'' [''ef'', ''g''] [(''profile'', Str ''release'')]])"
    by (simp add: step_a_eq sim_defs)
  have gb: "False \<or> False \<or> \<not> path_exists (sim_os ?bb) ?w1 (''g'' @ ''-labelled.ef'')"
    by (simp add: sim_defs)
  have rd: "read_text (sim_os ?bb) ?w1 (''g'' @ ''.nodes.count.txt'') = Inr ''7''"
    by (simp add: sim_defs)
  have fb: "rust_run (sim_os ?bb) ''swh-graph-index'' [''labels-ef'', ''g'' @ ''-labelled'', strip ''7'']
      (default_profile []) ?w1 =
      (Inl (CalledProcessError ''swh-graph-index'' [''labels-ef'', ''g-labelled'', ''7'']), ?w1)"
    by (simp add: sim_defs)
  note tb = steps_in_order_and_abort_on_error
    [where os = "sim_os ?bb" and conf = "[]" and force = False and ef = False and graph = "''g''"
       and w = ?w0,
     THEN conjunct2, THEN conjunct2, THEN conjunct2, THEN conjunct2, THEN conjunct2,
     THEN conjunct2, THEN conjunct2]
  note rb = tb [rule_format, OF conjI [OF sa conjI [OF gb conjI [OF rd fb]]]]
  from fa ra fb rb show ?thesis
    by (simp add: sim_defs)
qed

text \<open>
  Claim C7. When the resolved configuration has no top-level \<open>graph\<close> key, the
  program fails with the configuration error (\<open>ValueError\<close>) of the group callback
  and has done nothing else: the world is the one it started in, and the only event of
  the run is the exception, so no existence check was made and none of the three steps
  was started.
\<close>

theorem missing_graph_stanza_aborts_first:
  \<open>map_of conf_read ''graph'' = None \<Longrightarrow>
     main os config_file conf_read profile force ef graph w =
       (Inl (ValueError (''no "graph" stanza found in configuration file '' @
               (case config_file of None \<Rightarrow> ''None'' | Some f \<Rightarrow> f))),
        w,
        [Raised (ValueError (''no "graph" stanza found in configuration file '' @
               (case config_file of None \<Rightarrow> ''None'' | Some f \<Rightarrow> f)))])\<close>
  by (simp add: main_def graph_cli_group_def bind_def raise_def)

theorem missing_graph_stanza_aborts_first_witness:
  \<open>main (sim_os []) (Some ''conf.yml'') [(''profile'', Str ''debug'')] None True True ''g''
       [(''g.ef'', ''old'')] =
     (Inl (ValueError ''no "graph" stanza found in configuration file conf.yml''),
      [(''g.ef'', ''old'')],
      [Raised (ValueError ''no "graph" stanza found in configuration file conf.yml'')])\<close>
  using missing_graph_stanza_aborts_first
    [of "[(''profile'', Str ''debug'')]" "sim_os []" "Some ''conf.yml''" None True True "''g''"
        "[(''g.ef'', ''old'')]"]
  by simp

text \<open>
  Claim C8. Whenever the run launches the label-index generator, the sidecar
  \<open><prefix>.nodes.count.txt\<close> was read successfully in the world that Step A left,
  and the count argument of the launch is the text read with leading and trailing
  whitespace removed and nothing else done to it. Conversely, whenever Step B is
  reached with its guard true and the sidecar is read, the generator is launched with
  the stripped text right after the read, whatever the text is, numeric or not: the
  command checks nothing about it. The stripped text is the text without a prefix and
  a suffix that consist of whitespace only, and it neither starts nor ends with
  whitespace.
\<close>

theorem node_count_is_stripped_sidecar:
  "(\<forall>rest c. Invoke ''swh-graph-index'' (''labels-ef'' # rest) c
        \<in> set (events_of (reindex os conf force ef graph w)) \<longrightarrow>
      (\<exists>cnt.
         read_text os (world_of (step_a os (default_profile conf) (ef \<or> force) graph w))
           (graph @ ''.nodes.count.txt'') = Inr cnt
         \<and> rest = [graph @ ''-labelled'', strip cnt]))
   \<and> (\<forall>w1 t1 cnt.
         step_a os (default_profile conf) (ef \<or> force) graph w = (Inr (), w1, t1) \<and>
         (ef \<or> force \<or> \<not> path_exists os w1 (graph @ ''-labelled.ef'')) \<and>
         read_text os w1 (graph @ ''.nodes.count.txt'') = Inr cnt \<longrightarrow>
         (\<exists>rest. events_of (reindex os conf force ef graph w) =
            t1 @ (if ef \<or> force then [] else [Exists (graph @ ''-labelled.ef'') False]) @
              [Open (graph @ ''.nodes.count.txt''), Read (graph @ ''.nodes.count.txt'') cnt,
               LogInfo ''Recreating Elias-Fano indexes on arc labels'',
               Invoke ''swh-graph-index'' [''labels-ef'', graph @ ''-labelled'', strip cnt]
                 (default_profile conf)] @ rest))
   \<and> (\<forall>cnt.
         (\<exists>pre post. cnt = pre @ strip cnt @ post \<and>
            (\<forall>ch\<in>set pre. isspace ch) \<and> (\<forall>ch\<in>set post. isspace ch))
         \<and> (strip cnt \<noteq> [] \<longrightarrow>
              \<not> isspace (hd (strip cnt)) \<and> \<not> isspace (last (strip cnt))))"
proof -
  have first: "\<forall>rest c. Invoke ''swh-graph-index'' (''labels-ef'' # rest) c
        \<in> set (events_of (reindex os conf force ef graph w)) \<longrightarrow>
      (\<exists>cnt.
         read_text os (world_of (step_a os (default_profile conf) (ef \<or> force) graph w))
           (graph @ ''.nodes.count.txt'') = Inr cnt
         \<and> rest = [graph @ ''-labelled'', strip cnt])"
  proof (intro allI impI)
    fix rest c
    assume "Invoke ''swh-graph-index'' (''labels-ef'' # rest) c
        \<in> set (events_of (reindex os conf force ef graph w))"
    then show "\<exists>cnt.
         read_text os (world_of (step_a os (default_profile conf) (ef \<or> force) graph w))
           (graph @ ''.nodes.count.txt'') = Inr cnt
         \<and> rest = [graph @ ''-labelled'', strip cnt]"
      by (rule labelled_launch_reads_sidecar)
  qed
  have second: "\<forall>w1 t1 cnt.
         step_a os (default_profile conf) (ef \<or> force) graph w = (Inr (), w1, t1) \<and>
         (ef \<or> force \<or> \<not> path_exists os w1 (graph @ ''-labelled.ef'')) \<and>
         read_text os w1 (graph @ ''.nodes.count.txt'') = Inr cnt \<longrightarrow>
         (\<exists>rest. events_of (reindex os conf force ef graph w) =
            t1 @ (if ef \<or> force then [] else [Exists (graph @ ''-labelled.ef'') False]) @
              [Open (graph @ ''.nodes.count.txt''), Read (graph @ ''.nodes.count.txt'') cnt,
               LogInfo ''Recreating Elias-Fano indexes on arc labels'',
               Invoke ''swh-graph-index'' [''labels-ef'', graph @ ''-labelled'', strip cnt]
                 (default_profile conf)] @ rest)"
  proof (intro allI impI)
    fix w1 t1 cnt
    assume h: "step_a os (default_profile conf) (ef \<or> force) graph w = (Inr (), w1, t1) \<and>
         (ef \<or> force \<or> \<not> path_exists os w1 (graph @ ''-labelled.ef'')) \<and>
         read_text os w1 (graph @ ''.nodes.count.txt'') = Inr cnt"
    show "\<exists>rest. events_of (reindex os conf force ef graph w) =
            t1 @ (if ef \<or> force then [] else [Exists (graph @ ''-labelled.ef'') False]) @
              [Open (graph @ ''.nodes.count.txt''), Read (graph @ ''.nodes.count.txt'') cnt,
               LogInfo ''Recreating Elias-Fano indexes on arc labels'',
               Invoke ''swh-graph-index'' [''labels-ef'', graph @ ''-labelled'', strip cnt]
                 (default_profile conf)] @ rest"
      by (rule label_generator_launched_after_read
            [OF h [THEN conjunct1] h [THEN conjunct2, THEN conjunct1]
                h [THEN conjunct2, THEN conjunct2]])
  qed
  have third: "\<forall>cnt.
         (\<exists>pre post. cnt = pre @ strip cnt @ post \<and>
            (\<forall>ch\<in>set pre. isspace ch) \<and> (\<forall>ch\<in>set post. isspace ch))
         \<and> (strip cnt \<noteq> [] \<longrightarrow>
              \<not> isspace (hd (strip cnt)) \<and> \<not> isspace (last (strip cnt)))"
  proof (intro allI conjI impI)
    fix cnt
    show "\<exists>pre post. cnt = pre @ strip cnt @ post \<and>
            (\<forall>ch\<in>set pre. isspace ch) \<and> (\<forall>ch\<in>set post. isspace ch)"
      by (rule strip_removes_only_whitespace)
  next
    fix cnt
    assume "strip cnt \<noteq> []"
    then show "\<not> isspace (hd (strip cnt))"
      by (rule strip_ends_not_whitespace [THEN conjunct1])
  next
    fix cnt
    assume "strip cnt \<noteq> []"
    then show "\<not> isspace (last (strip cnt))"
      by (rule strip_ends_not_whitespace [THEN conjunct2])
  qed
  show ?thesis
    by (intro conjI) (rule first second third)+
qed

theorem node_count_is_stripped_sidecar_witness:
  "step_a (sim_os []) (default_profile []) (False \<or> False) ''g''
       [(''g.nodes.count.txt'', '' n/a'' @ [CHR 0x0A])] =
     (Inr (),
      [(''g.nodes.count.txt'', '' n/a'' @ [CHR 0x0A]), (''g.ef'', ''forward index'')],
      [Exists ''g.ef'' False,
       LogInfo ''Recreating Elias-Fano indexes on adjacency lists'',
       Invoke ''swh-graph-index'' [''ef'', ''g''] [(''profile'', Str ''release'')]])
   \<and> \<not> path_exists (sim_os [])
         [(''g.nodes.count.txt'', '' n/a'' @ [CHR 0x0A]), (''g.ef'', ''forward index'')]
         ''g-labelled.ef''
   \<and> read_text (sim_os [])
         [(''g.nodes.count.txt'', '' n/a'' @ [CHR 0x0A]), (''g.ef'', ''forward index'')]
         ''g.nodes.count.txt'' = Inr ('' n/a'' @ [CHR 0x0A])
   \<and> strip ('' n/a'' @ [CHR 0x0A]) = ''n/a''
   \<and> Invoke ''swh-graph-index'' [''labels-ef'', ''g-labelled'', ''n/a''] [(''profile'', Str ''release'')]
       \<in> set (events_of (reindex (sim_os []) [] False False ''g''
                [(''g.nodes.count.txt'', '' n/a'' @ [CHR 0x0A])]))"
proof -
  let ?w0 = "[(''g.nodes.count.txt'', '' n/a'' @ [CHR 0x0A])]"
  let ?w1 = "[(''g.nodes.count.txt'', '' n/a'' @ [CHR 0x0A]), (''g.ef'', ''forward index'')]"
  have sa: "step_a (sim_os []) (default_profile []) (False \<or> False) ''g'' ?w0 =
      (Inr (), ?w1,
       [Exists ''g.ef'' False,
        LogInfo ''Recreating Elias-Fano indexes on adjacency lists'',
        Invoke ''swh-graph-index'' [''ef'', ''g''] [(''profile'', Str ''release'')]])"
    by (simp add: step_a_eq sim_defs)
  have absent: "\<not> path_exists (sim_os []) ?w1 (''g'' @ ''-labelled.ef'')"
    by (simp add: sim_defs)
  have g: "False \<or> False \<or> \<not> path_exists (sim_os []) ?w1 (''g'' @ ''-labelled.ef'')"
    using absent by simp
  have rd: "read_text (sim_os []) ?w1 (''g'' @ ''.nodes.count.txt'') = Inr ('' n/a'' @ [CHR 0x0A])"
    by (simp add: sim_defs)
  have st: "strip ('' n/a'' @ [CHR 0x0A]) = ''n/a''"
    by (simp add: strip_def isspace_def)
  note t = node_count_is_stripped_sidecar
    [where os = "sim_os []" and conf = "[]" and force = False and ef = False and graph = "''g''"
       and w = ?w0, THEN conjunct2, THEN conjunct1]
  from t [rule_format, OF conjI [OF sa conjI [OF g rd]]] obtain rest where
    "events_of (reindex (sim_os []) [] False False ''g'' ?w0) =
       [Exists ''g.ef'' False,
        LogInfo ''Recreating Elias-Fano indexes on adjacency lists'',
        Invoke ''swh-graph-index'' [''ef'', ''g''] [(''profile'', Str ''release'')]] @
       (if False \<or> False then [] else [Exists (''g'' @ ''-labelled.ef'') False]) @
       [Open (''g'' @ ''.nodes.count.txt''),
        Read (''g'' @ ''.nodes.count.txt'') ('' n/a'' @ [CHR 0x0A]),
        LogInfo ''Recreating Elias-Fano indexes on arc labels'',
        Invoke ''swh-graph-index'' [''labels-ef'', ''g'' @ ''-labelled'', strip ('' n/a'' @ [CHR 0x0A])]
          (default_profile [])] @ rest"
    by blast
  then have launched: "Invoke ''swh-graph-index''
        [''labels-ef'', ''g-labelled'', ''n/a''] [(''profile'', Str ''release'')]
      \<in> set (events_of (reindex (sim_os []) [] False False ''g'' ?w0))"
    by (simp add: strip_def isspace_def default_profile_def)
  from sa absent rd st launched show ?thesis
    by simp
qed

text \<open>
  Claim C9. Every generator launch of the program receives the configuration after the
  default has been applied, so its \<open>profile\<close> key is set; when neither the
  configuration nor the command line gives a profile, the value it receives is
  \<open>release\<close>, and a profile given on the command line is the value it receives.
\<close>

theorem profile_set_for_every_generator:
  "Invoke b a c \<in> set (events_of (main os config_file conf_read profile force ef graph w)) \<Longrightarrow>
     c = default_profile
           (case profile of None \<Rightarrow> conf_read
            | Some p \<Rightarrow> AList.update ''profile'' (Str p) conf_read)
     \<and> map_of c ''profile'' \<noteq> None
     \<and> (profile = None \<and> map_of conf_read ''profile'' = None \<longrightarrow>
          map_of c ''profile'' = Some (Str ''release''))
     \<and> (\<forall>p. profile = Some p \<longrightarrow> map_of c ''profile'' = Some (Str p))"
proof -
  assume inv: "Invoke b a c \<in> set (events_of (main os config_file conf_read profile force ef graph w))"
  let ?conf = "case profile of None \<Rightarrow> conf_read
            | Some p \<Rightarrow> AList.update ''profile'' (Str p) conf_read"
  have "map_of conf_read ''graph'' \<noteq> None"
  proof
    assume "map_of conf_read ''graph'' = None"
    from events_of_main_no_graph [OF this, of os config_file profile force ef graph w] inv
    show False by auto
  qed
  with inv have "Invoke b a c \<in> set (events_of (reindex os ?conf force ef graph w))"
    by (simp add: events_of_main)
  from invoke_in_reindex [OF this] have c: "c = default_profile ?conf" by simp
  show ?thesis
    unfolding c
    by (auto simp: default_profile_set default_profile_release default_profile_def update_conv'
        split: option.splits)
qed

theorem profile_set_for_every_generator_witness:
  "Invoke ''swh-graph-node2type'' [''g'']
       [(''graph'', Dict [(''cls'', Str ''local''), (''grpc_server'', Dict [])]),
        (''profile'', Str ''release'')]
     \<in> set (events_of (main (sim_os []) None
               [(''graph'', Dict [(''cls'', Str ''local''), (''grpc_server'', Dict [])])]
               None False False ''g''
               [(''g.ef'', ''old''), (''g-labelled.ef'', ''old''), (''g.nodes.count.txt'', ''7'')]))
   \<and> map_of [(''graph'', Dict [(''cls'', Str ''local''), (''grpc_server'', Dict [])]),
              (''profile'', Str ''release'')] ''profile'' = Some (Str ''release'')"
  using profile_set_for_every_generator
    [of "''swh-graph-node2type''" "[''g'']"
        "[(''graph'', Dict [(''cls'', Str ''local''), (''grpc_server'', Dict [])]),
          (''profile'', Str ''release'')]"
        "sim_os []" None "[(''graph'', Dict [(''cls'', Str ''local''), (''grpc_server'', Dict [])])]"
        None False False "''g''"
        "[(''g.ef'', ''old''), (''g-labelled.ef'', ''old''), (''g.nodes.count.txt'', ''7'')]"]
    run_main_default_profile
  by (simp add: events_of_def default_profile_def)

text \<open>
  Claim C10. Whatever the flags, the prefix and the world, a generator launch of the
  run is the forward index on the prefix, the label index on the prefix followed by
  \<open>-labelled\<close>, or the node-type generator on the prefix; the forward index is never
  launched on the prefix followed by \<open>-transposed\<close>.
\<close>

theorem only_three_generators:
  "(\<forall>b a c. Invoke b a c \<in> set (events_of (reindex os conf force ef graph w)) \<longrightarrow>
      (b, a) = (''swh-graph-index'', [''ef'', graph]) \<or>
      (\<exists>n. (b, a) = (''swh-graph-index'', [''labels-ef'', graph @ ''-labelled'', n])) \<or>
      (b, a) = (''swh-graph-node2type'', [graph]))
   \<and> (\<forall>c. Invoke ''swh-graph-index'' [''ef'', graph @ ''-transposed''] c
          \<notin> set (events_of (reindex os conf force ef graph w)))"
proof (intro conjI allI impI)
  fix b a c
  assume "Invoke b a c \<in> set (events_of (reindex os conf force ef graph w))"
  from invoke_in_reindex [OF this]
  show "(b, a) = (''swh-graph-index'', [''ef'', graph]) \<or>
      (\<exists>n. (b, a) = (''swh-graph-index'', [''labels-ef'', graph @ ''-labelled'', n])) \<or>
      (b, a) = (''swh-graph-node2type'', [graph])"
    by auto
next
  fix c
  show "Invoke ''swh-graph-index'' [''ef'', graph @ ''-transposed''] c
          \<notin> set (events_of (reindex os conf force ef graph w))"
  proof
    assume "Invoke ''swh-graph-index'' [''ef'', graph @ ''-transposed''] c
          \<in> set (events_of (reindex os conf force ef graph w))"
    from invoke_in_reindex [OF this] show False by simp
  qed
qed

theorem only_three_generators_witness:
  "Invoke ''swh-graph-index'' [''ef'', ''g''] [(''profile'', Str ''release'')]
     \<in> set (events_of (reindex (sim_os []) [] False False ''g''
              [(''g.nodes.count.txt'', '' 42'' @ [CHR 0x0A])]))
   \<and> Invoke ''swh-graph-index'' [''ef'', ''g-transposed''] [(''profile'', Str ''release'')]
     \<notin> set (events_of (reindex (sim_os []) [] False False ''g''
              [(''g.nodes.count.txt'', '' 42'' @ [CHR 0x0A])]))"
  using only_three_generators
    [of "sim_os []" "[]" False False "''g''" "[(''g.nodes.count.txt'', '' 42'' @ [CHR 0x0A])]"]
    run_fresh
  by (simp add: events_of_def)

end
